theory Spec2Isabelle
  imports Complex_Main
begin

section \<open>Strings and numbers of the host language\<close>

text \<open>
  Strings are byte lists. The numeric props \<open>maxFiles\<close> and \<open>maxSizeMB\<close> are modelled
  as integers (fractional and non-finite numbers are outside the model); a file's size is
  a natural number of bytes; the progress percentage, which grows by
  \<open>Math.random() * 10\<close>, is a real number.
\<close>

definition digit_char :: "nat \<Rightarrow> char" where
  "digit_char d = ''0123456789'' ! (d mod 10)"

fun show_nat :: "nat \<Rightarrow> string" where
  "show_nat n = (if n < 10 then [digit_char n] else show_nat (n div 10) @ [digit_char (n mod 10)])"

declare show_nat.simps [simp del]

text \<open>A number inside a template literal: \<open>`${n}`\<close>.\<close>

definition show_int :: "int \<Rightarrow> string" where
  "show_int i = (if i < 0 then CHR ''-'' # show_nat (nat (- i)) else show_nat (nat i))"

text \<open>\<open>String.prototype.split\<close> with a one-character separator: never an empty array.\<close>

fun split_str :: "char \<Rightarrow> string \<Rightarrow> string list" where
  "split_str sep [] = [[]]"
| "split_str sep (c # cs) =
     (if c = sep then [] # split_str sep cs
      else (case split_str sep cs of
              [] \<Rightarrow> [[c]]
            | w # ws \<Rightarrow> (c # w) # ws))"

text \<open>\<open>Array.prototype.pop\<close>, read for its result: \<open>undefined\<close> on an empty array.\<close>

definition pop :: "'a list \<Rightarrow> 'a option" where
  "pop xs = (if xs = [] then None else Some (last xs))"

text \<open>\<open>String.prototype.toLowerCase\<close> on ASCII letters; other bytes stay as they are.\<close>

definition toLowerCase_char :: "char \<Rightarrow> char" where
  "toLowerCase_char c =
     (case map_of (zip ''ABCDEFGHIJKLMNOPQRSTUVWXYZ'' ''abcdefghijklmnopqrstuvwxyz'') c of
        None \<Rightarrow> c
      | Some l \<Rightarrow> l)"

definition toLowerCase :: "string \<Rightarrow> string" where
  "toLowerCase s = map toLowerCase_char s"

text \<open>\<open>Array.prototype.join\<close>.\<close>

fun join :: "string \<Rightarrow> string list \<Rightarrow> string" where
  "join sep [] = []"
| "join sep [x] = x"
| "join sep (x # y # ys) = x @ sep @ join sep (y # ys)"

section \<open>DocumentUploader: data\<close>

datatype status = Uploading | Success | Error

text \<open>The fields of the browser's \<open>File\<close> that the component reads.\<close>

record file_rec =
  name :: string
  size_f :: nat

text \<open>
  \<open>interface FileWithPreview extends File\<close>. An entry of the list starts as the
  browser's \<open>File\<close> object itself, on which \<open>Object.assign\<close> has put \<open>id\<close>, \<open>progress\<close> and
  \<open>status\<close> as own properties. The \<open>name\<close> and the \<open>size\<close> of a \<open>File\<close> are not own
  properties: they are accessors that the object inherits from \<open>File.prototype\<close>.
  \<open>file_part\<close> is the \<open>File\<close> that the entry is, and \<open>None\<close> for an object that is not a
  \<open>File\<close>; the other fields are the own properties.
\<close>

record file_with_preview =
  file_part :: "file_rec option"
  preview :: "string option"
  id_f :: string
  progress :: real
  status :: status
  errorMessage :: "string option"

text \<open>The props of the component that its logic reads, with their default values.\<close>

record props =
  maxFiles :: int
  maxSizeMB :: int
  allowedFileTypes :: "string list"
  isProcessing :: bool

definition default_props :: props where
  "default_props =
     \<lparr>maxFiles = 10, maxSizeMB = 10,
      allowedFileTypes = [''.pdf'', ''.docx'', ''.doc''],
      isProcessing = False\<rparr>"

record validation =
  valid :: bool
  error :: "string option"

section \<open>DocumentUploader: validation\<close>

definition maxSizeBytes :: "props \<Rightarrow> int" where
  "maxSizeBytes p = maxSizeMB p * 1024 * 1024"

text \<open>
  \<open>`.${file.name.split(".").pop()?.toLowerCase()}`\<close>: an \<open>undefined\<close> in a template
  literal prints as the word.
\<close>

definition fileExtension :: "file_rec \<Rightarrow> string" where
  "fileExtension f =
     ''.'' @ (case pop (split_str (CHR ''.'') (name f)) of
                None \<Rightarrow> ''undefined''
              | Some e \<Rightarrow> toLowerCase e)"

text \<open>\<open>files\<close> is the list the component holds when \<open>validateFile\<close> runs.\<close>

definition validateFile :: "props \<Rightarrow> file_with_preview list \<Rightarrow> file_rec \<Rightarrow> validation" where
  "validateFile p files f =
     (if int (size_f f) > maxSizeBytes p then
        \<lparr>valid = False,
         error = Some (''File size exceeds '' @ show_int (maxSizeMB p) @ ''MB limit'')\<rparr>
      else if fileExtension f \<notin> set (allowedFileTypes p) then
        \<lparr>valid = False,
         error = Some (''File type not supported. Allowed types: ''
                        @ join '', '' (allowedFileTypes p))\<rparr>
      else if int (length files) \<ge> maxFiles p then
        \<lparr>valid = False,
         error = Some (''Maximum '' @ show_int (maxFiles p) @ '' files allowed'')\<rparr>
      else \<lparr>valid = True, error = None\<rparr>)"

section \<open>DocumentUploader: state and operations\<close>

text \<open>
  One call of \<open>simulateUpload\<close> owns a timer: the id of the file it was called with, its
  local variable \<open>progress\<close>, and whether its interval is still set (\<open>clearInterval\<close>
  has not run).
\<close>

record upload_timer =
  file_id :: string
  progress_t :: real
  interval_set :: bool

text \<open>
  The state of the component: the state variables \<open>files\<close> and \<open>error\<close> (here
  \<open>error_st\<close>), the timers that \<open>simulateUpload\<close> started, and the arguments of the calls
  of \<open>onUploadComplete\<close> so far. An event handler runs against the list of the last
  render; the model takes it to be the current list.
\<close>

record uploader =
  files :: "file_with_preview list"
  error_st :: "string option"
  timers :: "upload_timer list"
  uploadCompleteCalls :: "file_with_preview list list"

definition initial :: uploader where
  "initial = \<lparr>files = [], error_st = None, timers = [], uploadCompleteCalls = []\<rparr>"

text \<open>
  \<open>Object.assign(file, { id, progress: 0, status: "uploading" })\<close>. The id is built from
  \<open>Date.now()\<close> and \<open>Math.random()\<close>: it is an input of the model.
\<close>

definition newFile :: "file_rec \<Rightarrow> string \<Rightarrow> file_with_preview" where
  "newFile f i =
     \<lparr>file_part = Some f, preview = None, id_f = i, progress = 0,
      status = Uploading, errorMessage = None\<rparr>"

text \<open>\<open>file.name\<close> as the render reads it: \<open>undefined\<close> on an object that is not a \<open>File\<close>.\<close>

definition name_of :: "file_with_preview \<Rightarrow> string option" where
  "name_of f = map_option name (file_part f)"

text \<open>
  The object spread \<open>{ ...f }\<close>: a new plain object with the own enumerable properties of
  \<open>f\<close>. What \<open>f\<close> inherits is not copied.
\<close>

definition spread :: "file_with_preview \<Rightarrow> file_with_preview" where
  "spread f = f\<lparr>file_part := None\<rparr>"

definition startTimer :: "file_with_preview \<Rightarrow> upload_timer" where
  "startTimer f = \<lparr>file_id = id_f f, progress_t = 0, interval_set = True\<rparr>"

text \<open>\<open>validation.error || "Invalid file"\<close>.\<close>

definition error_or_invalid :: "validation \<Rightarrow> string" where
  "error_or_invalid v =
     (case error v of
        None \<Rightarrow> ''Invalid file''
      | Some e \<Rightarrow> if e = [] then ''Invalid file'' else e)"

text \<open>
  The \<open>forEach\<close> of \<open>processFiles\<close>, over the files offered, each with the id it gets if
  it is accepted. The accumulator holds the \<open>error\<close> set so far, \<open>newFiles\<close>, and the
  timers started. Every file is validated against the same list \<open>fs\<close>.
\<close>

fun forEach_file ::
  "props \<Rightarrow> file_with_preview list \<Rightarrow> (file_rec \<times> string) list
   \<Rightarrow> string option \<times> file_with_preview list \<times> upload_timer list
   \<Rightarrow> string option \<times> file_with_preview list \<times> upload_timer list" where
  "forEach_file p fs [] acc = acc"
| "forEach_file p fs ((f, i) # rest) (err, newFiles, started) =
     (let validation = validateFile p fs f in
      if \<not> valid validation then
        forEach_file p fs rest (Some (error_or_invalid validation), newFiles, started)
      else
        forEach_file p fs rest
          (err, newFiles @ [newFile f i], started @ [startTimer (newFile f i)]))"

definition processFiles ::
  "props \<Rightarrow> uploader \<Rightarrow> (file_rec \<times> string) list option \<Rightarrow> uploader" where
  "processFiles p s fileList =
     (case fileList of
        None \<Rightarrow> s
      | Some fl \<Rightarrow>
          (case forEach_file p (files s) fl (None, [], []) of
             (err, newFiles, started) \<Rightarrow>
               s\<lparr>error_st := err,
                 files := (if length newFiles > 0 then files s @ newFiles else files s),
                 timers := timers s @ started\<rparr>))"

text \<open>
  One run of the interval callback of the timer at index \<open>k\<close>, with \<open>r\<close> the value of
  \<open>Math.random()\<close>.
\<close>

definition tick :: "uploader \<Rightarrow> nat \<Rightarrow> real \<Rightarrow> uploader" where
  "tick s k r =
     (let t = timers s ! k;
          progress' = progress_t t + r * 10
      in
      if progress' \<ge> 100 then
        (let updatedFiles =
               map (\<lambda>f. if id_f f = file_id t
                          then (spread f)\<lparr>progress := 100, status := Success\<rparr> else f)
                   (files s);
             allUploaded = list_all (\<lambda>f. status f = Success) updatedFiles
         in s\<lparr>files := updatedFiles,
              timers := (timers s)[k := t\<lparr>progress_t := 100, interval_set := False\<rparr>],
              uploadCompleteCalls :=
                (if allUploaded then uploadCompleteCalls s @ [updatedFiles]
                 else uploadCompleteCalls s)\<rparr>)
      else
        s\<lparr>files := map (\<lambda>f. if id_f f = file_id t then (spread f)\<lparr>progress := progress'\<rparr>
                            else f)
                       (files s),
          timers := (timers s)[k := t\<lparr>progress_t := progress'\<rparr>]\<rparr>)"

definition removeFile :: "uploader \<Rightarrow> string \<Rightarrow> uploader" where
  "removeFile s i = s\<lparr>files := filter (\<lambda>f. id_f f \<noteq> i) (files s)\<rparr>"

subsection \<open>The Summarize button\<close>

definition successfulFiles :: "file_with_preview list \<Rightarrow> file_with_preview list" where
  "successfulFiles fs = filter (\<lambda>f. status f = Success) fs"

text \<open>The \<open>disabled\<close> attribute of the button.\<close>

definition summarize_disabled :: "props \<Rightarrow> file_with_preview list \<Rightarrow> bool" where
  "summarize_disabled p fs =
     (isProcessing p \<or> list_ex (\<lambda>f. status f = Uploading) fs
      \<or> length (filter (\<lambda>f. status f = Success) fs) = 0)"

text \<open>The \<open>onClick\<close> handler: the argument of the call of \<open>onSummarize\<close>, if it calls.\<close>

definition summarize_onClick :: "file_with_preview list \<Rightarrow> file_with_preview list option" where
  "summarize_onClick fs =
     (if length (successfulFiles fs) > 0 then Some (successfulFiles fs) else None)"

text \<open>
  A click: the button is rendered only under \<open>files.length > 0\<close>, and a disabled button
  does not run its handler.
\<close>

definition summarize_click ::
  "props \<Rightarrow> file_with_preview list \<Rightarrow> file_with_preview list option" where
  "summarize_click p fs =
     (if length fs > 0 \<and> \<not> summarize_disabled p fs then summarize_onClick fs else None)"

subsection \<open>Runs of the component\<close>

datatype event =
  ProcessFiles "(file_rec \<times> string) list option"
| Tick nat real
| RemoveFile string

text \<open>
  What the environment is taken to do: the ids it generates are new, an interval that is
  cleared or was never set does not fire, and \<open>Math.random()\<close> is in \<open>[0, 1)\<close>.
\<close>

definition fresh_ids :: "uploader \<Rightarrow> (file_rec \<times> string) list \<Rightarrow> bool" where
  "fresh_ids s fl =
     (distinct (map snd fl)
      \<and> list_all (\<lambda>i. i \<notin> set (map file_id (timers s))) (map snd fl))"

fun admissible :: "uploader \<Rightarrow> event \<Rightarrow> bool" where
  "admissible s (ProcessFiles None) = True"
| "admissible s (ProcessFiles (Some fl)) = fresh_ids s fl"
| "admissible s (Tick k r) =
     (k < length (timers s) \<and> interval_set (timers s ! k) \<and> 0 \<le> r \<and> r < 1)"
| "admissible s (RemoveFile i) = True"

fun step :: "props \<Rightarrow> uploader \<Rightarrow> event \<Rightarrow> uploader" where
  "step p s (ProcessFiles fl) = processFiles p s fl"
| "step p s (Tick k r) =
     (if k < length (timers s) \<and> interval_set (timers s ! k) then tick s k r else s)"
| "step p s (RemoveFile i) = removeFile s i"

inductive reachable :: "props \<Rightarrow> uploader \<Rightarrow> bool" for p :: props where
  reachable_initial: "reachable p initial"
| reachable_step: "reachable p s \<Longrightarrow> admissible s e \<Longrightarrow> reachable p (step p s e)"

section \<open>ResultsDashboard and DocumentSummary\<close>

text \<open>The union type \<open>"high" | "medium" | "low"\<close>, and the string each value is.\<close>

datatype importance = High | Medium | Low

fun importance_tag :: "importance \<Rightarrow> string" where
  "importance_tag High = ''high''"
| "importance_tag Medium = ''medium''"
| "importance_tag Low = ''low''"

record highlight =
  text_h :: string
  importance :: importance

record entity =
  name_e :: string
  type_e :: string

record metadata =
  tags :: "string list"
  keyInsights :: "string list"
  entities :: "entity list"

text \<open>\<open>interface Document\<close> of the dashboard: \<open>title?: string\<close> is optional.\<close>

record document =
  id_d :: string
  title :: "string option"
  originalFileName :: string
  summary :: string
  fullText :: string
  metadata :: metadata
  highlights :: "highlight list"
  processedDate :: string

text \<open>The default value of the prop \<open>documents\<close>.\<close>

definition sample_documents :: "document list" where
  "sample_documents =
    [\<lparr>id_d = ''1'',
      title = Some ''Sample Document'',
      originalFileName = ''Sample Document.pdf'',
      summary =
        ''This is a sample document summary that highlights the key points from the document. It provides a concise overview of the main topics covered.'',
      fullText =
        ''Lorem ipsum dolor sit amet, consectetur adipiscing elit. Nullam euismod, nisl eget aliquam ultricies, nunc nisl aliquet nunc, vitae aliquam nisl nunc vitae nisl. Nullam euismod, nisl eget aliquam ultricies, nunc nisl aliquet nunc, vitae aliquam nisl nunc vitae nisl.'',
      metadata =
        \<lparr>tags = [''Contract'',
          ''Legal'',
          ''Agreement''],
         keyInsights =
         [''Payment terms defined in section 3.2'',
          ''Termination clause on page 5'',
          ''Non-compete for 24 months''],
         entities =
         [\<lparr>name_e = ''Acme Corp'', type_e = ''Organization''\<rparr>,
          \<lparr>name_e = ''John Doe'', type_e = ''Person''\<rparr>,
          \<lparr>name_e = ''Jane Smith'', type_e = ''Person''\<rparr>]\<rparr>,
      highlights =
       [\<lparr>text_h = ''Payment must be made within 30 days of invoice receipt'',
         importance = High\<rparr>,
        \<lparr>text_h = ''Either party may terminate with 60 days written notice'',
         importance = Medium\<rparr>,
        \<lparr>text_h = ''All disputes shall be resolved through arbitration'',
         importance = Low\<rparr>],
      processedDate = ''2023-06-15T14:30:00Z''\<rparr>,
     \<lparr>id_d = ''2'',
      title = Some ''Business Proposal'',
      originalFileName = ''Business Proposal.docx'',
      summary =
        ''A business proposal for expanding operations into the European market, with financial projections and implementation timeline.'',
      fullText =
        ''Detailed business proposal text would appear here with multiple paragraphs of content...'',
      metadata =
        \<lparr>tags = [''Business'',
          ''Proposal'',
          ''Expansion''],
         keyInsights =
         [([CHR 0xC3, CHR 0xA2] @ [CHR 0xE2, CHR 0x80, CHR 0x9A] @ [CHR 0xC2, CHR 0xAC] @ ''2.5M initial investment''),
          ''18-month timeline'',
          ''Focus on Germany and France''],
         entities =
         [\<lparr>name_e = ''Global Enterprises'', type_e = ''Organization''\<rparr>,
          \<lparr>name_e = ''European Union'', type_e = ''Organization''\<rparr>,
          \<lparr>name_e = ''Frankfurt Office'', type_e = ''Location''\<rparr>]\<rparr>,
      highlights =
       [\<lparr>text_h = ''Projected ROI of 22% within first 24 months'',
         importance = High\<rparr>,
        \<lparr>text_h = ''Hiring of 15 local staff required in Q1'',
         importance = Medium\<rparr>,
        \<lparr>text_h = ''Regulatory approval expected by Q3'',
         importance = Medium\<rparr>],
      processedDate = ''2023-06-10T09:15:00Z''\<rparr>]"

text \<open>The prop \<open>documents\<close> after destructuring: the default stands in for an omitted prop.\<close>

definition documents_of :: "document list option \<Rightarrow> document list" where
  "documents_of prop = (case prop of None \<Rightarrow> sample_documents | Some ds \<Rightarrow> ds)"

text \<open>\<open>a || b\<close> where \<open>a\<close> is a string or \<open>undefined\<close>: both \<open>undefined\<close> and \<open>""\<close> are falsy.\<close>

definition or_string :: "string option \<Rightarrow> string \<Rightarrow> string" where
  "or_string a b = (case a of None \<Rightarrow> b | Some x \<Rightarrow> if x = [] then b else x)"

text \<open>\<open>documents[0]?.id || ""\<close>, the initial value of the state \<open>activeDocument\<close>.\<close>

definition initial_activeDocument :: "document list \<Rightarrow> string" where
  "initial_activeDocument ds =
     or_string (case ds of [] \<Rightarrow> None | d # _ \<Rightarrow> Some (id_d d)) []"

definition currentDocument :: "document list \<Rightarrow> string \<Rightarrow> document option" where
  "currentDocument ds activeDocument = find (\<lambda>doc. id_d doc = activeDocument) ds"

text \<open>The heading of the content area: \<open>currentDocument.title || currentDocument.originalFileName\<close>.\<close>

definition heading :: "document \<Rightarrow> string" where
  "heading d = or_string (title d) (originalFileName d)"

text \<open>\<open>getHighlightColor\<close> of DocumentSummary: a \<open>switch\<close> on the string, with its default.\<close>

definition getHighlightColor :: "string \<Rightarrow> string" where
  "getHighlightColor imp =
     (if imp = ''high'' then ''bg-red-100 border-l-4 border-red-500''
      else if imp = ''medium'' then ''bg-yellow-100 border-l-4 border-yellow-500''
      else if imp = ''low'' then ''bg-blue-100 border-l-4 border-blue-500''
      else ''bg-gray-100'')"

text \<open>The call in the render: \<open>getHighlightColor(highlight.importance)\<close>.\<close>

definition highlight_class :: "highlight \<Rightarrow> string" where
  "highlight_class h = getHighlightColor (importance_tag (importance h))"

section \<open>Auxiliary definitions for the proofs\<close>

subsection \<open>What one batch and one tick do\<close>

text \<open>The files of a batch that \<open>validateFile\<close> lets through, against the list \<open>fs\<close>.\<close>

definition accepted ::
  "props \<Rightarrow> file_with_preview list \<Rightarrow> (file_rec \<times> string) list \<Rightarrow> (file_rec \<times> string) list" where
  "accepted p fs fl = filter (\<lambda>(f, i). valid (validateFile p fs f)) fl"

text \<open>The effect of one tick on its own timer and on one entry of the list.\<close>

definition tick_timer :: "upload_timer \<Rightarrow> real \<Rightarrow> upload_timer" where
  "tick_timer t r =
     (if progress_t t + r * 10 \<ge> 100 then t\<lparr>progress_t := 100, interval_set := False\<rparr>
      else t\<lparr>progress_t := progress_t t + r * 10\<rparr>)"

definition tick_entry :: "upload_timer \<Rightarrow> real \<Rightarrow> file_with_preview \<Rightarrow> file_with_preview" where
  "tick_entry t r f =
     (if id_f f = file_id t then
        (if progress_t t + r * 10 \<ge> 100 then (spread f)\<lparr>progress := 100, status := Success\<rparr>
         else (spread f)\<lparr>progress := progress_t t + r * 10\<rparr>)
      else f)"

subsection \<open>The invariant of the runs\<close>

definition timers_distinct :: "uploader \<Rightarrow> bool" where
  "timers_distinct s = distinct (map file_id (timers s))"

definition timers_bounded :: "uploader \<Rightarrow> bool" where
  "timers_bounded s =
     (\<forall>t\<in>set (timers s).
        0 \<le> progress_t t \<and> progress_t t \<le> 100 \<and> (interval_set t = (progress_t t < 100)))"

text \<open>A timer tracks an entry: same id, same progress, and the entry uploads while it runs.\<close>

definition tracks :: "upload_timer \<Rightarrow> file_with_preview \<Rightarrow> bool" where
  "tracks t e =
     (file_id t = id_f e \<and> progress e = progress_t t
      \<and> status e = (if interval_set t then Uploading else Success))"

definition files_tracked :: "uploader \<Rightarrow> bool" where
  "files_tracked s = (\<forall>e\<in>set (files s). \<exists>t\<in>set (timers s). tracks t e)"

definition uploader_inv :: "uploader \<Rightarrow> bool" where
  "uploader_inv s = (timers_distinct s \<and> timers_bounded s \<and> files_tracked s)"

subsection \<open>Runs over a list of events\<close>

definition run :: "props \<Rightarrow> uploader \<Rightarrow> event list \<Rightarrow> uploader" where
  "run p s evs = foldl (step p) s evs"

fun admissible_run :: "props \<Rightarrow> uploader \<Rightarrow> event list \<Rightarrow> bool" where
  "admissible_run p s [] = True"
| "admissible_run p s (e # evs) = (admissible s e \<and> admissible_run p (step p s e) evs)"

subsection \<open>The extension, in the words of the specification\<close>

text \<open>
  The text after the last dot of a file name. A name without a dot has no last dot, and
  so no such text.
\<close>

definition text_after_last_dot :: "string \<Rightarrow> string option" where
  "text_after_last_dot n =
     (if CHR ''.'' \<in> set n then Some (rev (takeWhile (\<lambda>c. c \<noteq> CHR ''.'') (rev n)))
      else None)"

text \<open>
  The type check as the specification words it: the lowercased text after the last dot,
  prefixed with a dot, is a member of \<open>allowedFileTypes\<close>.
\<close>

definition type_accepted_by_words :: "props \<Rightarrow> file_rec \<Rightarrow> bool" where
  "type_accepted_by_words p f =
     (case text_after_last_dot (name f) of
        None \<Rightarrow> False
      | Some e \<Rightarrow> ''.'' @ toLowerCase e \<in> set (allowedFileTypes p))"

subsection \<open>Concrete inputs\<close>

text \<open>Eleven files of an allowed type and size, offered in one batch.\<close>

definition eleven_files :: "(file_rec \<times> string) list" where
  "eleven_files =
     map (\<lambda>k. (\<lparr>name = ''doc.pdf'', size_f = 1024\<rparr>, ''file-'' @ show_nat k)) [0..<11]"

definition one_file :: "(file_rec \<times> string) list" where
  "one_file = [(\<lparr>name = ''report.pdf'', size_f = 2048\<rparr>, ''file-1'')]"

text \<open>One byte over ten megabytes.\<close>

definition oversized_file :: file_rec where
  "oversized_file = \<lparr>name = ''scan.pdf'', size_f = 10485761\<rparr>"

definition uploading_state :: uploader where
  "uploading_state = step default_props initial (ProcessFiles (Some one_file))"

text \<open>Eleven ticks of 9.5 percent each: the eleventh passes 100.\<close>

definition eleven_ticks :: "event list" where
  "eleven_ticks = replicate 11 (Tick 0 (19 / 20))"

definition success_state :: uploader where
  "success_state = run default_props uploading_state eleven_ticks"

definition finished_file :: file_with_preview where
  "finished_file =
     \<lparr>file_part = None, preview = None, id_f = ''file-1'',
      progress = 100, status = Success, errorMessage = None\<rparr>"

text \<open>Two files offered in one batch, and the state after it.\<close>

definition two_files :: "(file_rec \<times> string) list" where
  "two_files =
     [(\<lparr>name = ''report.pdf'', size_f = 2048\<rparr>, ''file-1''),
      (\<lparr>name = ''minutes.docx'', size_f = 512\<rparr>, ''file-2'')]"

definition two_uploading :: uploader where
  "two_uploading = step default_props initial (ProcessFiles (Some two_files))"

text \<open>Ten ticks of 9.5 percent each: the file stands at 95 percent.\<close>

definition ten_ticks :: "event list" where
  "ten_ticks = replicate 10 (Tick 0 (19 / 20))"

definition almost_done :: uploader where
  "almost_done = run default_props uploading_state ten_ticks"

text \<open>A document as the interface allows it, with no title.\<close>

definition untitled_document :: document where
  "untitled_document =
     \<lparr>id_d = ''7'', title = None, originalFileName = ''notes.pdf'',
      summary = ''Notes.'', fullText = ''Some notes.'',
      metadata = \<lparr>tags = [], keyInsights = [], entities = []\<rparr>,
      highlights = [], processedDate = ''2023-06-15T14:30:00Z''\<rparr>"

section \<open>Lemmas\<close>

subsection \<open>Splitting a name at its dots\<close>

lemma split_str_not_Nil [simp]: "split_str sep n \<noteq> []"
  by (induction n) (auto split: list.splits)

lemma split_str_no_sep: "sep \<notin> set n \<Longrightarrow> split_str sep n = [n]"
  by (induction n) auto

lemma split_str_single: "split_str sep n = [w] \<Longrightarrow> sep \<notin> set n"
  by (induction n arbitrary: w) (auto split: if_splits list.splits)

lemma last_split_str:
  "last (split_str sep n) = rev (takeWhile (\<lambda>c. c \<noteq> sep) (rev n))"
proof (induction n)
  case Nil
  then show ?case by simp
next
  case (Cons c cs)
  show ?case
  proof (cases "c = sep")
    case True
    with Cons show ?thesis by (simp add: takeWhile_append)
  next
    case False
    obtain w ws where s: "split_str sep cs = w # ws"
      using split_str_not_Nil [of sep cs] by (cases "split_str sep cs") auto
    show ?thesis
    proof (cases "ws = []")
      case True
      with s have "sep \<notin> set cs" by (auto dest: split_str_single)
      with False have nos: "sep \<notin> set (c # cs)" by auto
      have a: "split_str sep (c # cs) = [c # cs]"
        using nos by (rule split_str_no_sep)
      have b: "takeWhile (\<lambda>x. x \<noteq> sep) (rev (c # cs)) = rev (c # cs)"
        by (subst takeWhile_eq_all_conv) (use nos in auto)
      show ?thesis unfolding a b by simp
    next
      case ne: False
      with s have "sep \<in> set cs" using split_str_no_sep [of sep cs] by auto
      then have "takeWhile (\<lambda>c. c \<noteq> sep) (rev cs @ [c]) = takeWhile (\<lambda>c. c \<noteq> sep) (rev cs)"
        by (auto simp: takeWhile_append)
      with Cons s ne False show ?thesis by simp
    qed
  qed
qed

text \<open>
  On a name that has a dot, the type check of \<open>validateFile\<close> is the check that the
  specification words.
\<close>

lemma type_check_with_dot:
  assumes "CHR ''.'' \<in> set (name f)"
  shows "(fileExtension f \<in> set (allowedFileTypes p)) = type_accepted_by_words p f"
  using assms
  by (simp add: fileExtension_def pop_def last_split_str type_accepted_by_words_def
      text_after_last_dot_def)

text \<open>On a name without a dot, the extension is taken from the whole name.\<close>

lemma fileExtension_without_dot:
  assumes "CHR ''.'' \<notin> set (name f)"
  shows "fileExtension f = ''.'' @ toLowerCase (name f)"
  using assms by (simp add: fileExtension_def pop_def split_str_no_sep)

subsection \<open>One batch\<close>

lemma forEach_file_newFiles:
  "fst (snd (forEach_file p fs fl (err, nf, st)))
     = nf @ map (\<lambda>(f, i). newFile f i) (accepted p fs fl)"
  by (induction fl arbitrary: err nf st) (auto simp: accepted_def Let_def)

lemma forEach_file_started:
  "snd (snd (forEach_file p fs fl (err, nf, st)))
     = st @ map (\<lambda>(f, i). startTimer (newFile f i)) (accepted p fs fl)"
  by (induction fl arbitrary: err nf st) (auto simp: accepted_def Let_def)

lemma files_processFiles:
  "files (processFiles p s (Some fl))
     = files s @ map (\<lambda>(f, i). newFile f i) (accepted p (files s) fl)"
  using forEach_file_newFiles [of p "files s" fl None "[]" "[]"]
  by (auto simp: processFiles_def split: prod.splits)

lemma timers_processFiles:
  "timers (processFiles p s (Some fl))
     = timers s @ map (\<lambda>(f, i). startTimer (newFile f i)) (accepted p (files s) fl)"
  using forEach_file_started [of p "files s" fl None "[]" "[]"]
  by (auto simp: processFiles_def split: prod.splits)

lemma processFiles_None [simp]: "processFiles p s None = s"
  by (simp add: processFiles_def)

lemma error_processFiles_single:
  "\<not> valid (validateFile p (files s) f) \<Longrightarrow>
   processFiles p s (Some [(f, i)])
     = s\<lparr>error_st := Some (error_or_invalid (validateFile p (files s) f))\<rparr>"
  by (simp add: processFiles_def)

lemma file_id_started:
  "map file_id (map (\<lambda>(f, i). startTimer (newFile f i)) xs) = map snd xs"
  by (induction xs) (auto simp: startTimer_def newFile_def)

lemma timer_ids_processFiles:
  "map file_id (timers (processFiles p s (Some fl)))
     = map file_id (timers s) @ map snd (accepted p (files s) fl)"
  by (simp only: timers_processFiles map_append file_id_started)

lemma accepted_subset: "set (accepted p fs fl) \<subseteq> set fl"
  by (auto simp: accepted_def)

lemma accepted_ids_distinct: "distinct (map snd fl) \<Longrightarrow> distinct (map snd (accepted p fs fl))"
  unfolding accepted_def by (rule distinct_map_filter)

text \<open>A list that is full at the time of the call takes no file of the batch.\<close>

lemma full_list_accepts_nothing:
  assumes "int (length (files s)) \<ge> maxFiles p"
  shows "files (processFiles p s (Some fl)) = files s"
proof -
  have "accepted p (files s) fl = []"
    using assms by (auto simp: accepted_def validateFile_def filter_empty_conv split: if_splits)
  then show ?thesis by (simp add: files_processFiles)
qed

lemma full_list_error:
  assumes "int (length fs) \<ge> maxFiles p"
    and "int (size_f f) \<le> maxSizeBytes p"
    and "fileExtension f \<in> set (allowedFileTypes p)"
  shows "validateFile p fs f
           = \<lparr>valid = False,
              error = Some (''Maximum '' @ show_int (maxFiles p) @ '' files allowed'')\<rparr>"
  using assms by (simp add: validateFile_def)

subsection \<open>One tick\<close>

lemma files_tick: "files (tick s k r) = map (tick_entry (timers s ! k) r) (files s)"
  by (simp add: tick_def tick_entry_def spread_def Let_def)

lemma timers_tick: "timers (tick s k r) = (timers s)[k := tick_timer (timers s ! k) r]"
  by (simp add: tick_def tick_timer_def Let_def)

lemma error_st_tick: "error_st (tick s k r) = error_st s"
  by (simp add: tick_def Let_def)

lemma file_id_tick_timer [simp]: "file_id (tick_timer t r) = file_id t"
  by (simp add: tick_timer_def)

lemma timer_ids_tick: "map file_id (timers (tick s k r)) = map file_id (timers s)"
proof -
  have "map file_id (timers (tick s k r)) = (map file_id (timers s))[k := file_id (timers s ! k)]"
    by (simp add: timers_tick map_update)
  also have "\<dots> = map file_id ((timers s)[k := timers s ! k])"
    by (simp only: map_update)
  finally show ?thesis by simp
qed

lemma tick_timer_bounded:
  assumes "0 \<le> progress_t t" and "0 \<le> r" and "interval_set t"
  shows "0 \<le> progress_t (tick_timer t r) \<and> progress_t (tick_timer t r) \<le> 100
         \<and> (interval_set (tick_timer t r) = (progress_t (tick_timer t r) < 100))"
  using assms by (simp add: tick_timer_def)

lemma tracks_tick:
  assumes "tracks t e" and "interval_set t"
  shows "tracks (tick_timer t r) (tick_entry t r e)"
  using assms by (simp add: tracks_def tick_timer_def tick_entry_def spread_def)

subsection \<open>Timers with distinct ids\<close>

lemma same_id_same_timer:
  assumes "distinct (map file_id ts)" and "t \<in> set ts" and "k < length ts"
    and "file_id t = file_id (ts ! k)"
  shows "t = ts ! k"
proof -
  from assms(1) have "inj_on file_id (set ts)" by (simp add: distinct_map)
  moreover from assms(3) have "ts ! k \<in> set ts" by simp
  ultimately show ?thesis using assms(2,4) by (auto dest: inj_onD)
qed

lemma other_timer_kept:
  assumes "t \<in> set ts" and "t \<noteq> ts ! k"
  shows "t \<in> set (ts[k := t'])"
proof -
  from assms(1) obtain j where j: "j < length ts" "ts ! j = t" by (auto simp: in_set_conv_nth)
  with assms(2) have "j \<noteq> k" by auto
  with j have "ts[k := t'] ! j = t" "j < length (ts[k := t'])" by simp_all
  then show ?thesis by (metis nth_mem)
qed

subsection \<open>The invariant holds in every reachable state\<close>

lemma inv_initial: "uploader_inv initial"
  by (simp add: uploader_inv_def timers_distinct_def timers_bounded_def files_tracked_def
      initial_def)

lemma inv_removeFile: "uploader_inv s \<Longrightarrow> uploader_inv (removeFile s i)"
  by (simp add: uploader_inv_def timers_distinct_def timers_bounded_def files_tracked_def
      removeFile_def)

lemma distinct_processFiles:
  assumes "timers_distinct s" and "fresh_ids s fl"
  shows "timers_distinct (processFiles p s (Some fl))"
proof -
  let ?acc = "accepted p (files s) fl"
  have "distinct (map snd ?acc)"
    using assms(2) by (simp add: fresh_ids_def accepted_ids_distinct)
  moreover have "set (map file_id (timers s)) \<inter> set (map snd ?acc) = {}"
    using assms(2) accepted_subset [of p "files s" fl]
    by (fastforce simp: fresh_ids_def list_all_iff)
  ultimately show ?thesis
    using assms(1) by (simp add: timers_distinct_def timer_ids_processFiles)
qed

lemma bounded_processFiles:
  assumes "timers_bounded s"
  shows "timers_bounded (processFiles p s (Some fl))"
  using assms by (auto simp: timers_bounded_def timers_processFiles startTimer_def)

lemma tracks_started: "tracks (startTimer (newFile f i)) (newFile f i)"
  by (simp add: tracks_def startTimer_def newFile_def)

lemma tracked_processFiles:
  assumes "files_tracked s"
  shows "files_tracked (processFiles p s (Some fl))"
  unfolding files_tracked_def
proof
  let ?s' = "processFiles p s (Some fl)"
  fix e assume "e \<in> set (files ?s')"
  then consider "e \<in> set (files s)"
    | f i where "(f, i) \<in> set (accepted p (files s) fl)" "e = newFile f i"
    by (auto simp: files_processFiles)
  then show "\<exists>t\<in>set (timers ?s'). tracks t e"
  proof cases
    case 1
    with assms obtain t where "t \<in> set (timers s)" "tracks t e"
      unfolding files_tracked_def by blast
    then show ?thesis by (auto simp: timers_processFiles)
  next
    case 2
    then have "startTimer (newFile f i) \<in> set (timers ?s')"
      by (force simp: timers_processFiles)
    with 2 tracks_started show ?thesis by blast
  qed
qed

lemma inv_processFiles:
  "uploader_inv s \<Longrightarrow> fresh_ids s fl \<Longrightarrow> uploader_inv (processFiles p s (Some fl))"
  by (simp add: uploader_inv_def distinct_processFiles bounded_processFiles tracked_processFiles)

lemma distinct_tick: "timers_distinct s \<Longrightarrow> timers_distinct (tick s k r)"
  by (simp add: timers_distinct_def timer_ids_tick)

lemma bounded_tick:
  assumes "timers_bounded s" and "k < length (timers s)" and "interval_set (timers s ! k)"
    and "0 \<le> r"
  shows "timers_bounded (tick s k r)"
  unfolding timers_bounded_def
proof
  fix t assume "t \<in> set (timers (tick s k r))"
  then have "t = tick_timer (timers s ! k) r \<or> t \<in> set (timers s)"
    using set_update_subset_insert [of "timers s" k] by (auto simp: timers_tick)
  moreover have "0 \<le> progress_t (timers s ! k)"
    using assms(1,2) by (simp add: timers_bounded_def)
  ultimately show "0 \<le> progress_t t \<and> progress_t t \<le> 100
                   \<and> (interval_set t = (progress_t t < 100))"
    using tick_timer_bounded [of "timers s ! k" r] assms by (auto simp: timers_bounded_def)
qed

lemma tracked_tick:
  assumes "timers_distinct s" and "files_tracked s" and "k < length (timers s)"
    and "interval_set (timers s ! k)"
  shows "files_tracked (tick s k r)"
  unfolding files_tracked_def
proof
  let ?t = "timers s ! k"
  fix e' assume "e' \<in> set (files (tick s k r))"
  then obtain e where e: "e \<in> set (files s)" "e' = tick_entry ?t r e"
    by (auto simp: files_tick)
  with assms(2) obtain t0 where t0: "t0 \<in> set (timers s)" "tracks t0 e"
    unfolding files_tracked_def by blast
  show "\<exists>t\<in>set (timers (tick s k r)). tracks t e'"
  proof (cases "id_f e = file_id ?t")
    case True
    with t0 have "file_id t0 = file_id ?t" by (simp add: tracks_def)
    with assms(1,3) t0(1) have "t0 = ?t"
      by (auto simp: timers_distinct_def intro: same_id_same_timer)
    with t0(2) assms(4) e(2) have "tracks (tick_timer ?t r) e'" by (simp add: tracks_tick)
    moreover have "tick_timer ?t r \<in> set (timers (tick s k r))"
      using assms(3) by (simp add: timers_tick set_update_memI)
    ultimately show ?thesis by blast
  next
    case False
    with e(2) have "e' = e" by (simp add: tick_entry_def spread_def)
    moreover from False t0 have "t0 \<noteq> ?t" by (auto simp: tracks_def)
    with t0(1) have "t0 \<in> set (timers (tick s k r))"
      by (simp add: timers_tick other_timer_kept)
    ultimately show ?thesis using t0(2) by blast
  qed
qed

lemma inv_tick:
  assumes "uploader_inv s" and "k < length (timers s)" and "interval_set (timers s ! k)"
    and "0 \<le> r"
  shows "uploader_inv (tick s k r)"
  using assms by (simp add: uploader_inv_def distinct_tick bounded_tick tracked_tick)

lemma inv_step:
  assumes "uploader_inv s" and "admissible s e"
  shows "uploader_inv (step p s e)"
proof (cases e)
  case (ProcessFiles fl)
  with assms show ?thesis by (cases fl) (simp_all add: inv_processFiles)
next
  case (Tick k r)
  with assms show ?thesis by (simp add: inv_tick)
next
  case (RemoveFile i)
  with assms show ?thesis by (simp add: inv_removeFile)
qed

lemma reachable_inv: "reachable p s \<Longrightarrow> uploader_inv s"
  by (induction rule: reachable.induct) (simp_all add: inv_initial inv_step)

lemma tracked_status:
  assumes "timers_bounded s" and "files_tracked s" and "e \<in> set (files s)"
  shows "0 \<le> progress e \<and> progress e \<le> 100 \<and> status e \<noteq> Error
         \<and> (status e = Success) = (progress e = 100)"
proof -
  from assms(2,3) obtain t where t: "t \<in> set (timers s)" "tracks t e"
    unfolding files_tracked_def by blast
  with assms(1) have "0 \<le> progress_t t \<and> progress_t t \<le> 100
      \<and> (interval_set t = (progress_t t < 100))"
    unfolding timers_bounded_def by blast
  with t(2) show ?thesis by (auto simp: tracks_def)
qed

subsection \<open>Concrete runs\<close>

lemma reachable_run:
  "reachable p s \<Longrightarrow> admissible_run p s evs \<Longrightarrow> reachable p (run p s evs)"
  by (induction evs arbitrary: s) (auto simp: run_def intro: reachable_step)

lemma reachable_uploading: "reachable default_props uploading_state"
  unfolding uploading_state_def
  by (rule reachable_step [OF reachable_initial])
     (simp add: fresh_ids_def one_file_def initial_def)

lemma uploading_state_eq:
  "uploading_state =
     \<lparr>files = [\<lparr>file_part = Some \<lparr>name = ''report.pdf'', size_f = 2048\<rparr>, preview = None, id_f = ''file-1'',
                 progress = 0, status = Uploading, errorMessage = None\<rparr>],
      error_st = None,
      timers = [\<lparr>file_id = ''file-1'', progress_t = 0, interval_set = True\<rparr>],
      uploadCompleteCalls = []\<rparr>"
  by code_simp

lemma admissible_eleven_ticks: "admissible_run default_props uploading_state eleven_ticks"
  by code_simp

lemma reachable_success: "reachable default_props success_state"
  unfolding success_state_def
  by (rule reachable_run [OF reachable_uploading admissible_eleven_ticks])

lemma files_success_state: "files success_state = [finished_file]"
  by code_simp

lemma two_uploading_eq:
  "two_uploading =
     \<lparr>files = [\<lparr>file_part = Some \<lparr>name = ''report.pdf'', size_f = 2048\<rparr>, preview = None, id_f = ''file-1'',
                 progress = 0, status = Uploading, errorMessage = None\<rparr>,
               \<lparr>file_part = Some \<lparr>name = ''minutes.docx'', size_f = 512\<rparr>, preview = None, id_f = ''file-2'',
                 progress = 0, status = Uploading, errorMessage = None\<rparr>],
      error_st = None,
      timers = [\<lparr>file_id = ''file-1'', progress_t = 0, interval_set = True\<rparr>,
                \<lparr>file_id = ''file-2'', progress_t = 0, interval_set = True\<rparr>],
      uploadCompleteCalls = []\<rparr>"
  by code_simp

lemma almost_done_eq:
  "almost_done =
     \<lparr>files = [\<lparr>file_part = None, preview = None, id_f = ''file-1'',
                 progress = 95, status = Uploading, errorMessage = None\<rparr>],
      error_st = None,
      timers = [\<lparr>file_id = ''file-1'', progress_t = 95, interval_set = True\<rparr>],
      uploadCompleteCalls = []\<rparr>"
  by code_simp

lemma reachable_almost_done: "reachable default_props almost_done"
proof -
  have "admissible_run default_props uploading_state ten_ticks" by code_simp
  with reachable_uploading show ?thesis unfolding almost_done_def by (rule reachable_run)
qed

subsection \<open>Progress and status of an entry over one step\<close>

lemma tick_entry_progress:
  assumes "tracks t e" and "progress_t t \<le> 100" and "0 \<le> r"
  shows "progress e \<le> progress (tick_entry t r e)"
  using assms by (simp add: tracks_def tick_entry_def spread_def)

lemma progress_kept_or_raised:
  assumes "uploader_inv s" and "k < length (timers s)" and "0 \<le> r" and "e \<in> set (files s)"
  shows "progress e \<le> progress (tick_entry (timers s ! k) r e)"
proof (cases "id_f e = file_id (timers s ! k)")
  case True
  from assms(1,4) obtain t0 where t0: "t0 \<in> set (timers s)" "tracks t0 e"
    unfolding uploader_inv_def files_tracked_def by blast
  with True have "file_id t0 = file_id (timers s ! k)" by (simp add: tracks_def)
  with assms(1,2) t0(1) have "t0 = timers s ! k"
    by (auto simp: uploader_inv_def timers_distinct_def intro: same_id_same_timer)
  moreover from assms(1) t0(1) have "progress_t t0 \<le> 100"
    unfolding uploader_inv_def timers_bounded_def by blast
  ultimately show ?thesis using t0(2) assms(3) by (auto intro: tick_entry_progress)
next
  case False
  then show ?thesis by (simp add: tick_entry_def spread_def)
qed

lemma status_tick_entry:
  "status (tick_entry t r f) = status f
   \<or> (progress_t t + r * 10 \<ge> 100 \<and> id_f f = file_id t \<and> status (tick_entry t r f) = Success)"
  by (simp add: tick_entry_def spread_def)

text \<open>No operation writes the status \<open>Error\<close>, whatever the ids and the random numbers.\<close>

lemma no_error_step:
  assumes "\<forall>f\<in>set (files s). status f \<noteq> Error"
  shows "\<forall>f\<in>set (files (step p s e)). status f \<noteq> Error"
proof (cases e)
  case (ProcessFiles fl)
  show ?thesis
  proof (cases fl)
    case None
    with ProcessFiles assms show ?thesis by simp
  next
    case (Some b)
    with ProcessFiles assms show ?thesis
      by (auto simp: files_processFiles newFile_def)
  qed
next
  case (Tick k r)
  have "status (tick_entry t r f) \<noteq> Error" if "status f \<noteq> Error" for t f
    using that status_tick_entry [of t r f] by auto
  with Tick assms show ?thesis by (auto simp: files_tick)
next
  case (RemoveFile i)
  with assms show ?thesis by (simp add: removeFile_def)
qed

lemma no_error_run:
  assumes "\<forall>f\<in>set (files s). status f \<noteq> Error"
  shows "\<forall>f\<in>set (files (run p s evs)). status f \<noteq> Error"
  using assms
proof (induction evs arbitrary: s)
  case Nil
  then show ?case by (simp add: run_def)
next
  case (Cons e evs)
  from Cons.prems have "\<forall>f\<in>set (files (step p s e)). status f \<noteq> Error"
    by (rule no_error_step)
  then have "\<forall>f\<in>set (files (run p (step p s e) evs)). status f \<noteq> Error"
    by (rule Cons.IH)
  then show ?case by (simp add: run_def)
qed

text \<open>
  What a tick leaves as it is: the length of the list, the ids in their order, every entry
  of another id, the own properties other than progress and status of an entry of its id,
  and the error message.
\<close>

lemma tick_frame:
  "length (files (step p s (Tick k r))) = length (files s)
   \<and> map id_f (files (step p s (Tick k r))) = map id_f (files s)
   \<and> (\<forall>j<length (files s).
        (id_f (files s ! j) \<noteq> file_id (timers s ! k) \<longrightarrow>
           files (step p s (Tick k r)) ! j = files s ! j)
        \<and> (files (step p s (Tick k r)) ! j)
             \<lparr>file_part := file_part (files s ! j), progress := progress (files s ! j),
              status := status (files s ! j)\<rparr>
           = files s ! j
        \<and> (status (files (step p s (Tick k r)) ! j) = status (files s ! j)
           \<or> (progress_t (timers s ! k) + r * 10 \<ge> 100
               \<and> status (files (step p s (Tick k r)) ! j) = Success)))
   \<and> error_st (step p s (Tick k r)) = error_st s"
proof (cases "k < length (timers s) \<and> interval_set (timers s ! k)")
  case False
  then have "step p s (Tick k r) = s" by auto
  then show ?thesis by simp
next
  case True
  then have s': "step p s (Tick k r) = tick s k r" by simp
  let ?t = "timers s ! k"
  have 1: "map id_f (map (tick_entry ?t r) (files s)) = map id_f (files s)"
    by (simp add: tick_entry_def spread_def)
  have 2: "tick_entry ?t r f = f" if "id_f f \<noteq> file_id ?t" for f
    using that by (simp add: tick_entry_def)
  have 3: "(tick_entry ?t r f)\<lparr>file_part := file_part f, progress := progress f,
             status := status f\<rparr> = f" for f
    by (simp add: tick_entry_def spread_def)
  have 4: "status (tick_entry ?t r f) = status f
           \<or> (progress_t ?t + r * 10 \<ge> 100 \<and> status (tick_entry ?t r f) = Success)" for f
    by (simp add: tick_entry_def spread_def)
  show ?thesis
    unfolding s' files_tick error_st_tick using 1 2 3 4 by simp
qed

text \<open>The tick that completes the upload of the one file, from 95 percent.\<close>

lemma completing_tick_admissible: "admissible almost_done (Tick 0 (19 / 20))"
  by (simp add: almost_done_eq)

lemma status_almost_done: "map status (files almost_done) = [Uploading]"
  by (simp add: almost_done_eq)

lemma status_completing_tick:
  "map status (files (step default_props almost_done (Tick 0 (19 / 20)))) = [Success]"
  by (simp add: almost_done_eq tick_def spread_def Let_def)

section \<open>Properties\<close>

text \<open>
  C1 (file-count ceiling), evaluated where the code departs from it: against an empty
  list and the default \<open>maxFiles = 10\<close>, one call of \<open>processFiles\<close> with eleven files of
  an allowed type and size keeps all eleven, since \<open>validateFile\<close> compares \<open>maxFiles\<close>
  with the length of the list as it was before the batch, not with the files already
  taken from the batch.
\<close>

theorem batch_exceeds_maxFiles:
  "admissible initial (ProcessFiles (Some eleven_files))
   \<and> length (files initial) = 0
   \<and> maxFiles default_props = 10
   \<and> length (files (step default_props initial (ProcessFiles (Some eleven_files)))) = 11"
  by code_simp

text \<open>
  C2 (size ceiling): for a file that passes the extension and the count checks,
  \<open>validateFile\<close> rejects it if and only if its size in bytes is strictly greater than
  \<open>maxSizeMB * 1024 * 1024\<close>; the error of the rejection is
  \<open>File size exceeds ${maxSizeMB}MB limit\<close>, offering the file leaves the list as it was
  and sets that error, and no batch adds an entry over the ceiling.
\<close>

theorem size_ceiling:
  assumes "fileExtension f \<in> set (allowedFileTypes p)"
    and "int (length (files s)) < maxFiles p"
  shows "(\<not> valid (validateFile p (files s) f)) = (int (size_f f) > maxSizeMB p * 1024 * 1024)
    \<and> (int (size_f f) > maxSizeMB p * 1024 * 1024 \<longrightarrow>
         validateFile p (files s) f
           = \<lparr>valid = False,
              error = Some (''File size exceeds '' @ show_int (maxSizeMB p) @ ''MB limit'')\<rparr>
         \<and> processFiles p s (Some [(f, i)])
           = s\<lparr>error_st := Some (''File size exceeds '' @ show_int (maxSizeMB p) @ ''MB limit'')\<rparr>)
    \<and> (\<forall>e\<in>set (files (processFiles p s (Some fl))).
          e \<in> set (files s)
          \<or> (\<exists>g. file_part e = Some g \<and> int (size_f g) \<le> maxSizeMB p * 1024 * 1024))"
proof -
  have 1: "(\<not> valid (validateFile p (files s) f)) = (int (size_f f) > maxSizeMB p * 1024 * 1024)"
    using assms by (simp add: validateFile_def maxSizeBytes_def)
  have 2: "validateFile p (files s) f
           = \<lparr>valid = False,
              error = Some (''File size exceeds '' @ show_int (maxSizeMB p) @ ''MB limit'')\<rparr>"
    if "int (size_f f) > maxSizeMB p * 1024 * 1024"
    using that by (simp add: validateFile_def maxSizeBytes_def)
  have 3: "processFiles p s (Some [(f, i)])
           = s\<lparr>error_st := Some (''File size exceeds '' @ show_int (maxSizeMB p) @ ''MB limit'')\<rparr>"
    if "int (size_f f) > maxSizeMB p * 1024 * 1024"
    using 2 [OF that] error_processFiles_single [of p s f i]
    by (simp add: error_or_invalid_def)
  have 4: "e \<in> set (files s)
           \<or> (\<exists>g. file_part e = Some g \<and> int (size_f g) \<le> maxSizeMB p * 1024 * 1024)"
    if "e \<in> set (files (processFiles p s (Some fl)))" for e
  proof -
    from that consider "e \<in> set (files s)"
      | g j where "(g, j) \<in> set (accepted p (files s) fl)" "e = newFile g j"
      by (auto simp: files_processFiles)
    then show ?thesis
    proof cases
      case 1
      then show ?thesis by simp
    next
      case 2
      then have "valid (validateFile p (files s) g)" by (simp add: accepted_def)
      then have "\<not> int (size_f g) > maxSizeBytes p"
        by (auto simp: validateFile_def split: if_splits)
      with 2 show ?thesis by (simp add: newFile_def maxSizeBytes_def)
    qed
  qed
  from 1 2 3 4 show ?thesis by blast
qed

theorem size_ceiling_witness:
  "fileExtension oversized_file \<in> set (allowedFileTypes default_props)
   \<and> int (length (files initial)) < maxFiles default_props
   \<and> \<not> valid (validateFile default_props (files initial) oversized_file)
   \<and> processFiles default_props initial (Some [(oversized_file, ''file-9'')])
       = initial\<lparr>error_st := Some ''File size exceeds 10MB limit''\<rparr>"
proof -
  have a: "fileExtension oversized_file \<in> set (allowedFileTypes default_props)"
    by (simp add: oversized_file_def fileExtension_def pop_def toLowerCase_def
        toLowerCase_char_def default_props_def)
  have b: "int (length (files initial)) < maxFiles default_props"
    by (simp add: initial_def default_props_def)
  have c: "int (size_f oversized_file) > maxSizeMB default_props * 1024 * 1024"
    by (simp add: oversized_file_def default_props_def)
  have d: "show_int (maxSizeMB default_props) = ''10''"
    by (simp add: default_props_def show_int_def show_nat.simps digit_char_def)
  from size_ceiling [OF a b, of "''file-9''" "[]"] a b c d show ?thesis by simp
qed

text \<open>
  C3 (extension allow-list), evaluated where the code departs from it: the file name
  \<open>pdf\<close> has no dot, hence no text after a last dot, and the check as the specification
  words it rejects the file; \<open>validateFile\<close> takes the whole name for the extension,
  computes \<open>.pdf\<close>, and accepts the file under the default props.
\<close>

theorem extension_of_dotless_name:
  "text_after_last_dot ''pdf'' = None
   \<and> \<not> type_accepted_by_words default_props \<lparr>name = ''pdf'', size_f = 1\<rparr>
   \<and> fileExtension \<lparr>name = ''pdf'', size_f = 1\<rparr> = ''.pdf''
   \<and> validateFile default_props [] \<lparr>name = ''pdf'', size_f = 1\<rparr> = \<lparr>valid = True, error = None\<rparr>"
  by (simp add: text_after_last_dot_def type_accepted_by_words_def fileExtension_def pop_def
      toLowerCase_def toLowerCase_char_def validateFile_def default_props_def maxSizeBytes_def)

text \<open>
  C4 (upload-simulation progress): in every reachable state, over a tick of any running
  timer, the list keeps its length, the progress of no entry decreases, every entry has a
  progress between 0 and 100 and has the status success exactly when its progress is 100,
  the timer that ticked is still set exactly when its progress is below 100, and the
  entries of its file carry its progress and are successful exactly when it has stopped.
  The ids that the component generates are taken to be new, and \<open>Math.random()\<close> to be in
  \<open>[0, 1)\<close>.
\<close>

theorem upload_progress:
  assumes "reachable p s" and "admissible s (Tick k r)"
  shows "length (files (step p s (Tick k r))) = length (files s)
    \<and> (\<forall>j<length (files s).
          progress (files s ! j) \<le> progress (files (step p s (Tick k r)) ! j))
    \<and> (\<forall>e\<in>set (files (step p s (Tick k r))).
          0 \<le> progress e \<and> progress e \<le> 100 \<and> (status e = Success) = (progress e = 100))
    \<and> (\<forall>e\<in>set (files s).
          0 \<le> progress e \<and> progress e \<le> 100 \<and> (status e = Success) = (progress e = 100))
    \<and> interval_set (timers (step p s (Tick k r)) ! k)
         = (progress_t (timers (step p s (Tick k r)) ! k) < 100)
    \<and> (\<forall>e\<in>set (files (step p s (Tick k r))).
          id_f e = file_id (timers s ! k) \<longrightarrow>
            progress e = progress_t (timers (step p s (Tick k r)) ! k)
            \<and> (status e = Success) = (\<not> interval_set (timers (step p s (Tick k r)) ! k)))"
proof -
  let ?s' = "step p s (Tick k r)"
  from assms(2) have k: "k < length (timers s)" and on: "interval_set (timers s ! k)"
    and r: "0 \<le> r" by simp_all
  then have s': "?s' = tick s k r" by simp
  have inv: "uploader_inv s" using assms(1) by (rule reachable_inv)
  have "reachable p ?s'" using assms by (rule reachable_step)
  then have inv': "uploader_inv ?s'" by (rule reachable_inv)
  have 1: "length (files ?s') = length (files s)" by (simp add: s' files_tick)
  have 2: "progress (files s ! j) \<le> progress (files ?s' ! j)" if "j < length (files s)" for j
    using that progress_kept_or_raised [OF inv k r, of "files s ! j"]
    by (simp add: s' files_tick)
  have 3: "0 \<le> progress e \<and> progress e \<le> 100 \<and> (status e = Success) = (progress e = 100)"
    if "e \<in> set (files ?s')" for e
    using inv' that tracked_status [of ?s' e] by (simp add: uploader_inv_def)
  have 4: "0 \<le> progress e \<and> progress e \<le> 100 \<and> (status e = Success) = (progress e = 100)"
    if "e \<in> set (files s)" for e
    using inv that tracked_status [of s e] by (simp add: uploader_inv_def)
  have k': "timers ?s' ! k \<in> set (timers ?s')" using k by (simp add: s' timers_tick)
  have 5: "interval_set (timers ?s' ! k) = (progress_t (timers ?s' ! k) < 100)"
    using inv' k' unfolding uploader_inv_def timers_bounded_def by blast
  have 6: "progress e = progress_t (timers ?s' ! k)
            \<and> (status e = Success) = (\<not> interval_set (timers ?s' ! k))"
    if "e \<in> set (files ?s')" and "id_f e = file_id (timers s ! k)" for e
  proof -
    from inv' that(1) obtain t where t: "t \<in> set (timers ?s')" "tracks t e"
      unfolding uploader_inv_def files_tracked_def by blast
    have "file_id (timers ?s' ! k) = file_id (timers s ! k)"
      using k by (simp add: s' timers_tick)
    with t that(2) have "file_id t = file_id (timers ?s' ! k)" by (simp add: tracks_def)
    moreover have "k < length (timers ?s')" using k by (simp add: s' timers_tick)
    ultimately have "t = timers ?s' ! k"
      using inv' t(1) by (auto simp: uploader_inv_def timers_distinct_def intro: same_id_same_timer)
    with t(2) show ?thesis by (auto simp: tracks_def)
  qed
  from 1 2 3 4 5 6 show ?thesis by blast
qed

text \<open>The tick that completes an upload: from 95 percent to 100, success, timer cleared.\<close>

theorem upload_progress_witness:
  "reachable default_props almost_done
   \<and> admissible almost_done (Tick 0 (19 / 20))
   \<and> map progress (files almost_done) = [95]
   \<and> map progress (files (step default_props almost_done (Tick 0 (19 / 20)))) = [100]
   \<and> map status (files (step default_props almost_done (Tick 0 (19 / 20)))) = [Success]
   \<and> \<not> interval_set (timers (step default_props almost_done (Tick 0 (19 / 20))) ! 0)"
proof -
  have a: "admissible almost_done (Tick 0 (19 / 20))"
    by (simp add: almost_done_eq)
  have b: "files (step default_props almost_done (Tick 0 (19 / 20)))
      = [\<lparr>file_part = None, preview = None, id_f = ''file-1'',
          progress = 100, status = Success, errorMessage = None\<rparr>]"
    by (simp add: almost_done_eq tick_def spread_def Let_def)
  have c: "timers (step default_props almost_done (Tick 0 (19 / 20)))
      = [\<lparr>file_id = ''file-1'', progress_t = 100, interval_set = False\<rparr>]"
    by (simp add: almost_done_eq tick_def spread_def Let_def)
  from upload_progress [OF reachable_almost_done a] reachable_almost_done a b c
  show ?thesis by (simp add: almost_done_eq)
qed

text \<open>
  C5 as stated has the error outcome reachable. It is not: no run of the component, from
  the empty list and over any events, holds a file of status error.
\<close>

theorem error_status_unreachable:
  "\<not> (\<exists>p evs f. f \<in> set (files (run p initial evs)) \<and> status f = Error)"
proof -
  have "\<forall>f\<in>set (files initial). status f \<noteq> Error" by (simp add: initial_def)
  then have "\<forall>f\<in>set (files (run p initial evs)). status f \<noteq> Error" for p evs
    by (rule no_error_run)
  then show ?thesis by blast
qed

text \<open>
  C5 (per-file status state machine), amended: every file enters the list with the status
  uploading (\<open>processFiles\<close> appends its new entries, all uploading, and leaves the others
  as they are); the only status transition that any operation performs is from uploading
  to success (a tick keeps the length of the list and the status of every entry, or takes
  an entry from uploading to success; \<open>removeFile\<close> only drops entries); a file never
  leaves success; the success outcome is a reachable transition of the simulation, by a
  tick of the interval; and no file of a reachable state has the status error.
\<close>

theorem status_transitions:
  assumes "reachable p s" and "admissible s e"
  shows "(\<forall>f\<in>set (files s). status f \<noteq> Error)
    \<and> (case e of
          ProcessFiles fl \<Rightarrow>
            (\<exists>news. files (step p s e) = files s @ news
                    \<and> (\<forall>f\<in>set news. status f = Uploading))
        | Tick k r \<Rightarrow>
            length (files (step p s e)) = length (files s)
            \<and> (\<forall>j<length (files s).
                  status (files (step p s e) ! j) = status (files s ! j)
                  \<or> (status (files s ! j) = Uploading
                      \<and> status (files (step p s e) ! j) = Success))
        | RemoveFile i \<Rightarrow> files (step p s e) = filter (\<lambda>f. id_f f \<noteq> i) (files s))
    \<and> reachable default_props success_state
    \<and> map status (files success_state) = [Success]
    \<and> reachable default_props almost_done
    \<and> admissible almost_done (Tick 0 (19 / 20))
    \<and> map status (files almost_done) = [Uploading]
    \<and> map status (files (step default_props almost_done (Tick 0 (19 / 20)))) = [Success]"
proof -
  have inv: "uploader_inv s" using assms(1) by (rule reachable_inv)
  have 1: "\<forall>f\<in>set (files s). status f \<noteq> Error"
    using inv tracked_status [of s] by (auto simp: uploader_inv_def)
  have 2: "case e of
          ProcessFiles fl \<Rightarrow>
            (\<exists>news. files (step p s e) = files s @ news
                    \<and> (\<forall>f\<in>set news. status f = Uploading))
        | Tick k r \<Rightarrow>
            length (files (step p s e)) = length (files s)
            \<and> (\<forall>j<length (files s).
                  status (files (step p s e) ! j) = status (files s ! j)
                  \<or> (status (files s ! j) = Uploading
                      \<and> status (files (step p s e) ! j) = Success))
        | RemoveFile i \<Rightarrow> files (step p s e) = filter (\<lambda>f. id_f f \<noteq> i) (files s)"
  proof (cases e)
    case (ProcessFiles fl)
    show ?thesis
    proof (cases fl)
      case None
      with ProcessFiles show ?thesis by simp
    next
      case (Some b)
      have "\<forall>f\<in>set (map (\<lambda>(f, i). newFile f i) (accepted p (files s) b)). status f = Uploading"
        by (auto simp: newFile_def)
      with ProcessFiles Some show ?thesis
        using files_processFiles [of p s b] by auto
    qed
  next
    case (Tick k r)
    have "status (files (step p s e) ! j) = status (files s ! j)
          \<or> (status (files s ! j) = Uploading \<and> status (files (step p s e) ! j) = Success)"
      if "j < length (files s)" for j
    proof -
      from that have "files s ! j \<in> set (files s)" by simp
      with 1 have "status (files s ! j) \<noteq> Error" by blast
      then have "status (files s ! j) = Uploading \<or> status (files s ! j) = Success"
        by (cases "status (files s ! j)") simp_all
      then show ?thesis
        using Tick that status_tick_entry [of "timers s ! k" r "files s ! j"]
        by (auto simp: files_tick)
    qed
    with Tick show ?thesis by (simp add: files_tick)
  next
    case (RemoveFile i)
    then show ?thesis by (simp add: removeFile_def)
  qed
  have 3: "map status (files success_state) = [Success]"
    by (simp add: files_success_state finished_file_def)
  from 1 2 3 reachable_success reachable_almost_done completing_tick_admissible
    status_almost_done status_completing_tick
  show ?thesis by blast
qed

text \<open>The tick that takes the file from uploading to success.\<close>

theorem status_transitions_witness:
  "reachable default_props almost_done
   \<and> admissible almost_done (Tick 0 (19 / 20))
   \<and> length (files almost_done) = 1
   \<and> map status (files almost_done) = [Uploading]
   \<and> map status (files (step default_props almost_done (Tick 0 (19 / 20)))) = [Success]
   \<and> map status (files success_state) = [Success]"
proof -
  have n: "length (files almost_done) = 1" by (simp add: almost_done_eq)
  from status_transitions [OF reachable_almost_done completing_tick_admissible] n
  show ?thesis by blast
qed

text \<open>
  C6 (highlight rendering): the importance of a highlight is one of high, medium and low;
  \<open>getHighlightColor\<close> gives the red class for high, the yellow class for medium and the
  blue class for low, three different classes, and never falls to its default.
\<close>

theorem getHighlightColor_levels:
  "highlight_class h = getHighlightColor (importance_tag (importance h))
   \<and> importance h \<in> {High, Medium, Low}
   \<and> getHighlightColor (importance_tag High) = ''bg-red-100 border-l-4 border-red-500''
   \<and> getHighlightColor (importance_tag Medium) = ''bg-yellow-100 border-l-4 border-yellow-500''
   \<and> getHighlightColor (importance_tag Low) = ''bg-blue-100 border-l-4 border-blue-500''
   \<and> getHighlightColor (importance_tag High) \<noteq> getHighlightColor (importance_tag Medium)
   \<and> getHighlightColor (importance_tag High) \<noteq> getHighlightColor (importance_tag Low)
   \<and> getHighlightColor (importance_tag Medium) \<noteq> getHighlightColor (importance_tag Low)
   \<and> getHighlightColor (importance_tag (importance h)) \<noteq> ''bg-gray-100''"
  by (cases "importance h") (simp_all add: highlight_class_def getHighlightColor_def)

text \<open>
  C7 (default sample data): with the prop \<open>documents\<close> omitted the dashboard works on the
  two sample documents, of ids 1 and 2, and the first of them is active initially; with
  the prop supplied it works on the supplied list, and the initially active document is
  the id of its first document, or the empty string when the list is empty.
\<close>

theorem default_sample_data:
  "documents_of None = sample_documents
   \<and> map id_d sample_documents = [''1'', ''2'']
   \<and> initial_activeDocument (documents_of None) = id_d (hd sample_documents)
   \<and> initial_activeDocument (documents_of None) = ''1''
   \<and> documents_of (Some ds) = ds
   \<and> initial_activeDocument (documents_of (Some (d # ds))) = id_d d
   \<and> initial_activeDocument (documents_of (Some [])) = []"
  by (simp add: documents_of_def sample_documents_def initial_activeDocument_def or_string_def)

text \<open>
  C8 as stated has every document of the dashboard carry a title. The interface makes the
  title optional: a list with a document without one is a value of the prop.
\<close>

theorem document_without_title:
  "\<not> (\<forall>d\<in>set (documents_of (Some [untitled_document])). title d \<noteq> None)"
  by (simp add: documents_of_def untitled_document_def)

text \<open>
  C8 (document record shape), amended: every document of the dashboard is the record of
  its id, file name, summary, full text, metadata (tags, key insights, entities),
  highlight list and processing date, with a title that may be absent; the heading of the
  dashboard is the title when there is a non-empty one, and the file name otherwise.
\<close>

theorem document_shape:
  "d = \<lparr>id_d = id_d d, title = title d, originalFileName = originalFileName d,
        summary = summary d, fullText = fullText d,
        metadata = \<lparr>tags = tags (metadata d), keyInsights = keyInsights (metadata d),
                    entities = entities (metadata d)\<rparr>,
        highlights = highlights d, processedDate = processedDate d\<rparr>
   \<and> (title d = None \<longrightarrow> heading d = originalFileName d)
   \<and> (title d = Some t \<longrightarrow> heading d = (if t = [] then originalFileName d else t))"
  by (simp add: heading_def or_string_def)

theorem document_shape_witness:
  "title untitled_document = None
   \<and> currentDocument [untitled_document] (initial_activeDocument [untitled_document])
       = Some untitled_document
   \<and> heading untitled_document = ''notes.pdf''
   \<and> title (hd sample_documents) = Some ''Sample Document''
   \<and> heading (hd sample_documents) = ''Sample Document''"
  using document_shape [of untitled_document "''x''"]
    document_shape [of "hd sample_documents" "''Sample Document''"]
  by (simp add: untitled_document_def sample_documents_def currentDocument_def
      initial_activeDocument_def or_string_def)

text \<open>
  C9 (summarize gating): a click on the Summarize button calls \<open>onSummarize\<close> only with
  the files of status success, a non-empty list, and only while \<open>isProcessing\<close> is false,
  no file is uploading and some file is successful; in each of the three other cases the
  button is disabled and a click calls nothing.
\<close>

theorem summarize_gating:
  "(summarize_click p fs = Some arg \<longrightarrow>
      arg = filter (\<lambda>f. status f = Success) fs \<and> arg \<noteq> []
      \<and> (\<forall>f\<in>set arg. f \<in> set fs \<and> status f = Success)
      \<and> \<not> isProcessing p
      \<and> (\<forall>f\<in>set fs. status f \<noteq> Uploading)
      \<and> (\<exists>f\<in>set fs. status f = Success))
   \<and> (summarize_onClick fs = Some arg \<longrightarrow>
        arg = filter (\<lambda>f. status f = Success) fs \<and> arg \<noteq> [])
   \<and> (isProcessing p \<or> (\<exists>f\<in>set fs. status f = Uploading)
        \<or> (\<forall>f\<in>set fs. status f \<noteq> Success) \<longrightarrow>
        summarize_disabled p fs \<and> summarize_click p fs = None)"
proof -
  have h: "arg = filter (\<lambda>f. status f = Success) fs \<and> arg \<noteq> []"
    if "summarize_onClick fs = Some arg"
    using that by (auto simp: summarize_onClick_def successfulFiles_def split: if_splits)
  have c: "summarize_onClick fs = Some arg \<and> \<not> summarize_disabled p fs"
    if "summarize_click p fs = Some arg"
    using that by (auto simp: summarize_click_def split: if_splits)
  have d: "summarize_disabled p fs
      = (isProcessing p \<or> (\<exists>f\<in>set fs. status f = Uploading)
         \<or> (\<forall>f\<in>set fs. status f \<noteq> Success))"
    by (auto simp: summarize_disabled_def list_ex_iff filter_empty_conv)
  have 1: "arg = filter (\<lambda>f. status f = Success) fs \<and> arg \<noteq> []
      \<and> (\<forall>f\<in>set arg. f \<in> set fs \<and> status f = Success)
      \<and> \<not> isProcessing p
      \<and> (\<forall>f\<in>set fs. status f \<noteq> Uploading)
      \<and> (\<exists>f\<in>set fs. status f = Success)"
    if "summarize_click p fs = Some arg"
    using h c [OF that] d by auto
  have 3: "summarize_disabled p fs \<and> summarize_click p fs = None"
    if "isProcessing p \<or> (\<exists>f\<in>set fs. status f = Uploading)
        \<or> (\<forall>f\<in>set fs. status f \<noteq> Success)"
    using that d by (simp add: summarize_click_def)
  from 1 h 3 show ?thesis by blast
qed

theorem summarize_gating_witness:
  "summarize_click default_props (files success_state) = Some [finished_file]
   \<and> status finished_file = Success
   \<and> (\<exists>f\<in>set (files uploading_state). status f = Uploading)
   \<and> summarize_disabled default_props (files uploading_state)
   \<and> summarize_click default_props (files uploading_state) = None"
proof -
  have a: "summarize_click default_props (files success_state) = Some [finished_file]"
    by (simp add: files_success_state summarize_click_def summarize_disabled_def
        summarize_onClick_def successfulFiles_def finished_file_def default_props_def)
  have b: "\<exists>f\<in>set (files uploading_state). status f = Uploading"
    by (simp add: uploading_state_eq)
  from summarize_gating [of default_props "files success_state" "[finished_file]"] a
  have "\<forall>f\<in>set [finished_file]. f \<in> set (files success_state) \<and> status f = Success"
    by blast
  then have c: "status finished_file = Success" by simp
  from summarize_gating [of default_props "files uploading_state" "[]"] b
  have d: "summarize_disabled default_props (files uploading_state)
           \<and> summarize_click default_props (files uploading_state) = None"
    by blast
  from a b c d show ?thesis by blast
qed

text \<open>
  C10 (per-tick frame property), evaluated where the code departs from it. Two files were
  just added: each entry is the \<open>File\<close> itself and has its name. A tick of the second
  timer leaves the first entry as it is, and puts in the place of the second the spread
  \<open>{ ...f, progress }\<close>, a plain object with the own properties \<open>id\<close>, \<open>progress\<close> and
  \<open>status\<close>: the name that the render reads from it is \<open>undefined\<close>, where the property
  has every field but the progress unchanged.
\<close>

theorem tick_drops_file_name:
  "admissible two_uploading (Tick 1 (1 / 2))
   \<and> map name_of (files two_uploading) = [Some ''report.pdf'', Some ''minutes.docx'']
   \<and> map name_of (files (step default_props two_uploading (Tick 1 (1 / 2))))
       = [Some ''report.pdf'', None]
   \<and> files (step default_props two_uploading (Tick 1 (1 / 2))) ! 0 = files two_uploading ! 0
   \<and> map id_f (files (step default_props two_uploading (Tick 1 (1 / 2))))
       = [''file-1'', ''file-2'']
   \<and> map progress (files (step default_props two_uploading (Tick 1 (1 / 2)))) = [0, 5]"
  by (simp add: two_uploading_eq tick_def spread_def Let_def name_of_def)

end
